theory Spec2Isabelle
  imports Main
begin

section \<open>Regular expressions used by the suite\<close>

text \<open>
  The suite only calls \<^verbatim>\<open>assert.match\<close> and \<^verbatim>\<open>assert.notMatch\<close> with regular
  expression literals that are sequences of atoms: a literal character or \<^verbatim>\<open>\d\<close>,
  taken once, optionally (\<^verbatim>\<open>?\<close>) or one or more times (\<^verbatim>\<open>+\<close>), between optional
  anchors \<^verbatim>\<open>^\<close> and \<^verbatim>\<open>$\<close> (no \<^verbatim>\<open>m\<close> flag, so \<^verbatim>\<open>$\<close> is the end of the input).
  A pattern matches when some alternative of the backtracking search succeeds, so the
  matcher is the disjunction of all alternatives.
\<close>

datatype cls = Lit char | Digit

datatype atom = One cls | Opt cls | Plus cls

record regexp =
  anchored_start :: bool
  atoms :: "atom list"
  anchored_end :: bool

fun cls_ok :: "cls \<Rightarrow> char \<Rightarrow> bool" where
  "cls_ok (Lit c) x = (x = c)"
| "cls_ok Digit x = (x \<in> set ''0123456789'')"

fun match_here :: "bool \<Rightarrow> atom list \<Rightarrow> string \<Rightarrow> bool" where
  "match_here e [] s = (if e then s = [] else True)"
| "match_here e (One c # r) [] = False"
| "match_here e (One c # r) (x # xs) = (cls_ok c x \<and> match_here e r xs)"
| "match_here e (Opt c # r) [] = match_here e r []"
| "match_here e (Opt c # r) (x # xs) =
     ((cls_ok c x \<and> match_here e r xs) \<or> match_here e r (x # xs))"
| "match_here e (Plus c # r) [] = False"
| "match_here e (Plus c # r) (x # xs) =
     (cls_ok c x \<and> (match_here e (Plus c # r) xs \<or> match_here e r xs))"

fun re_search :: "bool \<Rightarrow> atom list \<Rightarrow> string \<Rightarrow> bool" where
  "re_search e r [] = match_here e r []"
| "re_search e r (x # xs) = (match_here e r (x # xs) \<or> re_search e r xs)"

definition re_test :: "regexp \<Rightarrow> string \<Rightarrow> bool" where
  "re_test r s =
     (if anchored_start r then match_here (anchored_end r) (atoms r) s
      else re_search (anchored_end r) (atoms r) s)"

definition lits :: "string \<Rightarrow> atom list" where
  "lits s = map (\<lambda>c. One (Lit c)) s"

definition unanchored :: "atom list \<Rightarrow> regexp" where
  "unanchored r = \<lparr>anchored_start = False, atoms = r, anchored_end = False\<rparr>"

text \<open>\<^verbatim>\<open>const versionRegExp = /^\d+\.\d+\.\d+\n$/;\<close>\<close>

definition versionRegExp :: regexp where
  "versionRegExp =
     \<lparr>anchored_start = True,
      atoms = [Plus Digit, One (Lit CHR ''.''), Plus Digit, One (Lit CHR ''.''), Plus Digit,
               One (Lit (CHR 0x0A))],
      anchored_end = True\<rparr>"

text \<open>\<^verbatim>\<open>/Compiled \d+ Solidity files? successfully/\<close>\<close>

definition re_compiled :: regexp where
  "re_compiled =
     unanchored (lits ''Compiled '' @ [Plus Digit] @ lits '' Solidity file'' @
                 [Opt (Lit CHR ''s'')] @ lits '' successfully'')"

text \<open>\<^verbatim>\<open>/2 passing/\<close>, \<^verbatim>\<open>/0 passing/\<close>, \<^verbatim>\<open>/You are not inside/\<close>, \<^verbatim>\<open>/HH15?/\<close>\<close>

definition re_2_passing :: regexp where
  "re_2_passing = unanchored (lits ''2 passing'')"

definition re_0_passing :: regexp where
  "re_0_passing = unanchored (lits ''0 passing'')"

definition re_not_inside :: regexp where
  "re_not_inside = unanchored (lits ''You are not inside'')"

definition re_HH15 :: regexp where
  "re_HH15 = unanchored (lits ''HH1'' @ [Opt (Lit CHR ''5'')])"

section \<open>The process runner and the harness state\<close>

record ProcessResult =
  code :: int
  stdout :: string
  stderr :: string

type_synonym env = "string \<Rightarrow> string option"

text \<open>
  Everything outside the test file is a parameter: the operating system that runs a
  command line (in a working directory, with an environment, on a world \<open>'w\<close> that holds
  the file system), \<^verbatim>\<open>fsExtra.existsSync\<close>, \<^verbatim>\<open>path.join\<close>, \<^verbatim>\<open>os.type()\<close> and the copy
  of a fixture template that \<^verbatim>\<open>useFixture\<close> makes.
\<close>

record 'w sys =
  spawn :: "string \<Rightarrow> env \<Rightarrow> string \<Rightarrow> 'w \<Rightarrow> ProcessResult \<times> 'w"
  existsSync :: "string \<Rightarrow> 'w \<Rightarrow> bool"
  path_join :: "string list \<Rightarrow> string"
  os_type :: string
  copy_fixture :: "string \<Rightarrow> 'w \<Rightarrow> (string \<times> 'w) option"

record exec_event =
  ev_cmd :: string
  ev_env :: env
  ev_cwd :: string
  ev_fatal :: bool

text \<open>
  The state a scenario can read or change: \<^verbatim>\<open>shell.config.fatal\<close> (set by
  \<^verbatim>\<open>shell.set("-e")\<close>), \<^verbatim>\<open>process.env\<close>, the working directory, \<^verbatim>\<open>this.testDirPath\<close>
  and the world. Three history fields record what happened and are never read by the
  program: the process invocations (\<open>execs\<close>), the scenario bodies entered with the
  shell mode at that moment (\<open>starts\<close>), and the number of assertion calls that
  evaluated true (\<open>checks\<close>).
\<close>

record 'w hstate =
  fatal :: bool
  penv :: env
  cwd :: string
  testDirPath :: "string option"
  world :: 'w
  execs :: "exec_event list"
  starts :: "(string \<times> bool) list"
  checks :: nat

datatype exn =
    AssertionError string
  | CommandFailed ProcessResult
  | TypeError
  | Pending
  | FixtureNotFound string

type_synonym ('w, 'a) prog = "'w hstate \<Rightarrow> (exn + 'a) \<times> 'w hstate"

definition ret :: "'a \<Rightarrow> ('w, 'a) prog" where
  "ret x s = (Inr x, s)"

definition bind :: "('w, 'a) prog \<Rightarrow> ('a \<Rightarrow> ('w, 'b) prog) \<Rightarrow> ('w, 'b) prog" where
  "bind m f s = (case m s of (Inl e, s') \<Rightarrow> (Inl e, s') | (Inr x, s') \<Rightarrow> f x s')"

text \<open>
  \<^verbatim>\<open>shell.set("-e")\<close> turns the fail-fast mode (\<^verbatim>\<open>config.fatal\<close>) on, as the comment at
  its call says (\<^verbatim>\<open>// Ensure that shell failures will induce test failures\<close>), and
  \<^verbatim>\<open>shell.set("+e")\<close> turns it off. The suite passes no other option.
\<close>

definition shell_set :: "string \<Rightarrow> ('w, unit) prog" where
  "shell_set opt s =
     (if opt = ''-e'' then (Inr (), s\<lparr>fatal := True\<rparr>)
      else if opt = ''+e'' then (Inr (), s\<lparr>fatal := False\<rparr>)
      else (Inr (), s))"

text \<open>
  The state after a process has run: the world it left, and the invocation added to the
  history. The environment of an invocation is \<^verbatim>\<open>options.env\<close> when given and
  \<^verbatim>\<open>process.env\<close> otherwise.
\<close>

definition record_exec :: "string \<Rightarrow> env \<Rightarrow> 'w \<Rightarrow> 'w hstate \<Rightarrow> 'w hstate" where
  "record_exec cmd e w' s =
     s\<lparr>world := w',
       execs := execs s @
         [\<lparr>ev_cmd = cmd, ev_env = e, ev_cwd = cwd s, ev_fatal = fatal s\<rparr>]\<rparr>"

definition env_of :: "env option \<Rightarrow> 'w hstate \<Rightarrow> env" where
  "env_of envopt s = (case envopt of None \<Rightarrow> penv s | Some e \<Rightarrow> e)"

text \<open>
  Modelled from the spec: \<^verbatim>\<open>shell.exec\<close> (the process runner) is a library call whose
  code is not in the repository. It runs the command synchronously in the current
  directory, with \<^verbatim>\<open>options.env\<close> when given and \<^verbatim>\<open>process.env\<close> otherwise; a non-zero
  exit fails the call with \<open>CommandFailed\<close> carrying the captured output when the
  fail-fast mode is on, and is returned as a \<open>ProcessResult\<close> when it is off.
\<close>

definition shell_exec :: "'w sys \<Rightarrow> string \<Rightarrow> env option \<Rightarrow> ('w, ProcessResult) prog" where
  "shell_exec sys cmd envopt s =
     (case spawn sys cmd (env_of envopt s) (cwd s) (world s) of
        (r, w') \<Rightarrow>
          if code r \<noteq> 0 \<and> fatal s
          then (Inl (CommandFailed r), record_exec cmd (env_of envopt s) w' s)
          else (Inr r, record_exec cmd (env_of envopt s) w' s))"

text \<open>The assertion calls of chai: each throws \<open>AssertionError\<close> when it is false.\<close>

definition chai_assert :: "bool \<Rightarrow> string \<Rightarrow> ('w, unit) prog" where
  "chai_assert b msg s =
     (if b then (Inr (), s\<lparr>checks := Suc (checks s)\<rparr>) else (Inl (AssertionError msg), s))"

definition assert_equal :: "int \<Rightarrow> int \<Rightarrow> ('w, unit) prog" where
  "assert_equal a b = chai_assert (a = b) ''expected values to be equal''"

definition assert_isTrue :: "bool \<Rightarrow> ('w, unit) prog" where
  "assert_isTrue b = chai_assert b ''expected value to be true''"

definition assert_match :: "string \<Rightarrow> regexp \<Rightarrow> ('w, unit) prog" where
  "assert_match str re = chai_assert (re_test re str) ''expected value to match''"

definition assert_notMatch :: "string \<Rightarrow> regexp \<Rightarrow> string \<Rightarrow> ('w, unit) prog" where
  "assert_notMatch str re msg = chai_assert (\<not> re_test re str) msg"

text \<open>
  Modelled from the spec: \<^verbatim>\<open>useFixture\<close> is imported from \<^verbatim>\<open>./helpers\<close>, which is not among
  the sources. It registers a before-hook that copies the named template into a fresh
  instance directory, records it as \<^verbatim>\<open>this.testDirPath\<close> and makes it the working
  directory; a missing template fails with \<open>FixtureNotFound\<close>.
\<close>

definition useFixture :: "'w sys \<Rightarrow> string \<Rightarrow> ('w, unit) prog" where
  "useFixture sys project s =
     (case copy_fixture sys project (world s) of
        None \<Rightarrow> (Inl (FixtureNotFound project), s)
      | Some (dir, w') \<Rightarrow> (Inr (), s\<lparr>world := w', testDirPath := Some dir, cwd := dir\<rparr>))"

section \<open>The scenario bodies\<close>

text \<open>\<^verbatim>\<open>const hardhatBinary = path.join("node_modules", ".bin", "hardhat");\<close>\<close>

definition hardhatBinary :: "'w sys \<Rightarrow> string" where
  "hardhatBinary sys = path_join sys [''node_modules'', ''.bin'', ''hardhat'']"

definition hh :: "'w sys \<Rightarrow> string \<Rightarrow> string" where
  "hh sys sub = hardhatBinary sys @ '' '' @ sub"

text \<open>\<^verbatim>\<open>it("should print the hardhat version")\<close>, in basic-project and in no project.\<close>

definition it_version :: "'w sys \<Rightarrow> ('w, unit) prog" where
  "it_version sys =
     bind (shell_exec sys (hh sys ''--version'') None) (\<lambda>r.
     bind (assert_equal (code r) 0) (\<lambda>_.
     assert_match (stdout r) versionRegExp))"

text \<open>
  \<^verbatim>\<open>path.join(this.testDirPath, "artifacts")\<close> reads the directory that \<^verbatim>\<open>useFixture\<close>
  recorded (\<^verbatim>\<open>path.join\<close> throws a \<open>TypeError\<close> on an undefined segment), and
  \<^verbatim>\<open>assert.isTrue(fsExtra.existsSync(artifactsDir))\<close> looks the path up in the world as
  it is at that moment.
\<close>

definition join_testDirPath :: "'w sys \<Rightarrow> string \<Rightarrow> ('w, string) prog" where
  "join_testDirPath sys seg s =
     (case testDirPath s of
        None \<Rightarrow> (Inl TypeError, s)
      | Some dir \<Rightarrow> (Inr (path_join sys [dir, seg]), s))"

definition assert_exists :: "'w sys \<Rightarrow> string \<Rightarrow> ('w, unit) prog" where
  "assert_exists sys p s = assert_isTrue (existsSync sys p (world s)) s"

text \<open>\<^verbatim>\<open>it("should compile")\<close>\<close>

definition it_compile :: "'w sys \<Rightarrow> ('w, unit) prog" where
  "it_compile sys =
     bind (shell_exec sys (hh sys ''clean'') None) (\<lambda>c1.
     bind (assert_equal (code c1) 0) (\<lambda>_.
     bind (shell_exec sys (hh sys ''compile'') None) (\<lambda>r.
     bind (assert_equal (code r) 0) (\<lambda>_.
     bind (join_testDirPath sys ''artifacts'') (\<lambda>artifactsDir.
     bind (assert_exists sys artifactsDir) (\<lambda>_.
     bind (assert_match (stdout r) re_compiled) (\<lambda>_.
     bind (shell_exec sys (hh sys ''clean'') None) (\<lambda>c2.
     assert_equal (code c2) 0))))))))"

text \<open>\<^verbatim>\<open>it("should test programmatically")\<close>\<close>

definition it_programmatic :: "'w sys \<Rightarrow> ('w, unit) prog" where
  "it_programmatic sys =
     bind (shell_exec sys (hh sys ''clean'') None) (\<lambda>c1.
     bind (assert_equal (code c1) 0) (\<lambda>_.
     bind (shell_exec sys (hh sys ''run ./scripts/multi-run-test.js'') None) (\<lambda>r.
     bind (assert_equal (code r) 0) (\<lambda>_.
     bind (assert_match (stdout r) re_2_passing) (\<lambda>_.
     bind (assert_notMatch (stdout r) re_0_passing
             ''A test run occured with 0 tests - potential caching issue'') (\<lambda>_.
     bind (shell_exec sys (hh sys ''clean'') None) (\<lambda>c2.
     assert_equal (code c2) 0)))))))"

text \<open>\<^verbatim>\<open>it("the test task should accept test files")\<close>\<close>

definition it_test_files :: "'w sys \<Rightarrow> ('w, unit) prog" where
  "it_test_files sys =
     bind (shell_exec sys (hh sys ''clean'') None) (\<lambda>c1.
     bind (assert_equal (code c1) 0) (\<lambda>_.
     bind (shell_exec sys (hh sys ''test test/simple.js'') None) (\<lambda>r1.
     bind (assert_equal (code r1) 0) (\<lambda>_.
     bind (shell_exec sys (hh sys ''test ./test/simple.js'') None) (\<lambda>r2.
     assert_equal (code r2) 0)))))"

text \<open>\<^verbatim>\<open>it("should run tests in parallel")\<close>\<close>

definition it_parallel :: "'w sys \<Rightarrow> ('w, unit) prog" where
  "it_parallel sys =
     bind (shell_exec sys (hh sys ''clean'') None) (\<lambda>c1.
     bind (assert_equal (code c1) 0) (\<lambda>_.
     bind (shell_exec sys (hh sys ''test --parallel'') None) (\<lambda>r.
     bind (assert_equal (code r) 0) (\<lambda>_.
     bind (assert_match (stdout r) re_2_passing) (\<lambda>_.
     bind (shell_exec sys (hh sys ''clean'') None) (\<lambda>c2.
     assert_equal (code c2) 0))))))"

text \<open>
  The before-hook of "sample projects":
  \<^verbatim>\<open>if (os.type() === "Windows_NT") { this.skip(); }\<close>
\<close>

definition skip_on_windows :: "'w sys \<Rightarrow> ('w, unit) prog" where
  "skip_on_windows sys s =
     (if os_type sys = ''Windows_NT'' then (Inl Pending, s) else (Inr (), s))"

text \<open>
  The before-hook that generates a sample project:
  \<^verbatim>\<open>shell.exec(`${hardhatBinary}`, { env: { ...process.env, FLAG: "true" } });\<close>
\<close>

definition generate_project :: "'w sys \<Rightarrow> string \<Rightarrow> ('w, unit) prog" where
  "generate_project sys flag =
     bind (\<lambda>s. shell_exec sys (hardhatBinary sys) (Some ((penv s)(flag \<mapsto> ''true''))) s)
          (\<lambda>_. ret ())"

text \<open>The body of every suggested-command scenario: \<^verbatim>\<open>shell.exec(suggestedCommand);\<close>\<close>

definition it_suggested :: "'w sys \<Rightarrow> string \<Rightarrow> ('w, unit) prog" where
  "it_suggested sys suggestedCommand =
     bind (shell_exec sys suggestedCommand None) (\<lambda>_. ret ())"

text \<open>\<^verbatim>\<open>it("should print an error message if you try to compile")\<close>\<close>

definition it_no_project_compile :: "'w sys \<Rightarrow> ('w, unit) prog" where
  "it_no_project_compile sys =
     bind (shell_set ''+e'') (\<lambda>_.
     bind (shell_exec sys (hh sys ''compile'') None) (\<lambda>r.
     bind (shell_set ''-e'') (\<lambda>_.
     bind (assert_equal (code r) 1) (\<lambda>_.
     bind (assert_match (stderr r) re_not_inside) (\<lambda>_.
     assert_match (stderr r) re_HH15)))))"

section \<open>The scenario tree and its runner\<close>

datatype outcome = Passed | Failed exn | Skipped | NotRun exn

datatype 'w node =
    It (title: string) (body: "('w, unit) prog")
  | Describe (name: string) (hooks: "('w, unit) prog list") (children: "'w node list")

fun titles :: "'w node \<Rightarrow> string list" and titles_list :: "'w node list \<Rightarrow> string list" where
  "titles (It t b) = [t]"
| "titles (Describe n hs cs) = titles_list cs"
| "titles_list [] = []"
| "titles_list (n # ns) = titles n @ titles_list ns"

fun run_hooks :: "('w, unit) prog list \<Rightarrow> 'w hstate \<Rightarrow> exn option \<times> 'w hstate" where
  "run_hooks [] s = (None, s)"
| "run_hooks (h # hs) s =
     (case h s of (Inl e, s') \<Rightarrow> (Some e, s') | (Inr _, s') \<Rightarrow> run_hooks hs s')"

definition outcome_of :: "exn + unit \<Rightarrow> outcome" where
  "outcome_of r = (case r of Inr _ \<Rightarrow> Passed | Inl Pending \<Rightarrow> Skipped | Inl e \<Rightarrow> Failed e)"

text \<open>
  Modelled from the spec: the runner of the describe/it tree is the host test framework,
  whose code is not in the repository. Groups and scenarios run sequentially, depth
  first, in declaration order. The before-hooks of a group run once, in registration
  order, before its children. A hook that skips marks every scenario of the group's
  subtree \<open>Skipped\<close>, and a hook that fails marks them \<open>NotRun\<close>; in both cases nothing
  else of the subtree runs and the sibling groups still run. A scenario whose body
  throws is \<open>Failed\<close> and the run goes on with the next one. The suite registers no
  after-hook. A scenario entered is recorded in \<open>starts\<close> with the shell mode then in
  effect.
\<close>

fun run_node :: "'w node \<Rightarrow> 'w hstate \<Rightarrow> (string \<times> outcome) list \<times> 'w hstate"
  and run_nodes :: "'w node list \<Rightarrow> 'w hstate \<Rightarrow> (string \<times> outcome) list \<times> 'w hstate" where
  "run_node (It t b) s =
     (case b (s\<lparr>starts := starts s @ [(t, fatal s)]\<rparr>) of
        (r, s') \<Rightarrow> ([(t, outcome_of r)], s'))"
| "run_node (Describe n hs cs) s =
     (case run_hooks hs s of
        (None, s') \<Rightarrow> run_nodes cs s'
      | (Some Pending, s') \<Rightarrow> (map (\<lambda>t. (t, Skipped)) (titles_list cs), s')
      | (Some e, s') \<Rightarrow> (map (\<lambda>t. (t, NotRun e)) (titles_list cs), s'))"
| "run_nodes [] s = ([], s)"
| "run_nodes (n # ns) s =
     (case run_node n s of
        (rs, s') \<Rightarrow> (case run_nodes ns s' of (rs', s'') \<Rightarrow> (rs @ rs', s'')))"

section \<open>The suite\<close>

definition dq :: string where
  "dq = [CHR 0x22]"

definition sq :: string where
  "sq = [CHR 0x27]"

text \<open>
  \<^verbatim>\<open>it(`should permit successful execution of the suggested command "${suggestedCommand}"`, ...)\<close>
\<close>

definition suggested_title :: "string \<Rightarrow> string" where
  "suggested_title suggestedCommand =
     ''should permit successful execution of the suggested command '' @ dq @
     suggestedCommand @ dq"

definition suggested :: "'w sys \<Rightarrow> string \<Rightarrow> 'w node" where
  "suggested sys suggestedCommand =
     It (suggested_title suggestedCommand) (it_suggested sys suggestedCommand)"

definition basic_project :: "'w sys \<Rightarrow> 'w node" where
  "basic_project sys =
     Describe ''basic-project'' [useFixture sys ''basic-project'']
       [It ''should print the hardhat version'' (it_version sys),
        It ''should compile'' (it_compile sys),
        It ''should test programmatically'' (it_programmatic sys),
        It ''the test task should accept test files'' (it_test_files sys),
        It ''should run tests in parallel'' (it_parallel sys)]"

definition basic_sample_commands :: "'w sys \<Rightarrow> string list" where
  "basic_sample_commands sys =
     [hh sys ''accounts'',
      hh sys ''compile'',
      hh sys ''test'',
      ''node scripts/sample-script.js'']"

definition basic_sample_project :: "'w sys \<Rightarrow> 'w node" where
  "basic_sample_project sys =
     Describe ''basic sample project''
       [useFixture sys ''basic-sample-project'',
        generate_project sys ''HARDHAT_CREATE_BASIC_SAMPLE_PROJECT_WITH_DEFAULTS'']
       (map (suggested sys) (basic_sample_commands sys))"

definition advanced_sample_commands :: "'w sys \<Rightarrow> string list" where
  "advanced_sample_commands sys =
     [hh sys ''compile'',
      hh sys ''test'',
      hh sys ''run scripts/deploy.js'',
      ''node scripts/deploy.js'',
      ''REPORT_GAS=true npx hardhat test'',
      hh sys ''coverage'',
      ''npx eslint '' @ sq @ ''**/*.js'' @ sq,
      ''npx eslint '' @ sq @ ''**/*.js'' @ sq @ '' --fix'',
      ''npx prettier '' @ sq @ ''**/*.{json,sol,md}'' @ sq @ '' --check'',
      ''npx solhint '' @ sq @ ''contracts/**/*.sol'' @ sq,
      ''npx solhint '' @ sq @ ''contracts/**/*.sol'' @ sq @ '' --fix'']"

definition advanced_sample_project :: "'w sys \<Rightarrow> 'w node" where
  "advanced_sample_project sys =
     Describe ''advanced sample project''
       [useFixture sys ''advanced-sample-project'',
        generate_project sys ''HARDHAT_CREATE_ADVANCED_SAMPLE_PROJECT_WITH_DEFAULTS'']
       (map (suggested sys) (advanced_sample_commands sys))"

definition advanced_ts_sample_commands :: "'w sys \<Rightarrow> string list" where
  "advanced_ts_sample_commands sys =
     [hh sys ''compile'',
      hh sys ''test'',
      hh sys ''run scripts/deploy.ts'',
      ''TS_NODE_FILES=true ts-node scripts/deploy.ts'',
      ''REPORT_GAS=true npx hardhat test'',
      hh sys ''coverage'',
      ''npx eslint '' @ sq @ ''**/*.{ts,js}'' @ sq,
      ''npx eslint '' @ sq @ ''**/*.{ts,js}'' @ sq @ '' --fix'',
      ''npx prettier '' @ sq @ ''**/*.{json,sol,md}'' @ sq @ '' --check'',
      ''npx solhint '' @ sq @ ''contracts/**/*.sol'' @ sq,
      ''npx solhint '' @ sq @ ''contracts/**/*.sol'' @ sq @ '' --fix'']"

definition advanced_ts_sample_project :: "'w sys \<Rightarrow> 'w node" where
  "advanced_ts_sample_project sys =
     Describe ''advanced TypeScript sample project''
       [useFixture sys ''advanced-ts-sample-project'',
        generate_project sys
          ''HARDHAT_CREATE_ADVANCED_TYPESCRIPT_SAMPLE_PROJECT_WITH_DEFAULTS'']
       (map (suggested sys) (advanced_ts_sample_commands sys))"

definition sample_projects :: "'w sys \<Rightarrow> 'w node" where
  "sample_projects sys =
     Describe ''sample projects'' [skip_on_windows sys]
       [basic_sample_project sys, advanced_sample_project sys,
        advanced_ts_sample_project sys]"

definition no_project :: "'w sys \<Rightarrow> 'w node" where
  "no_project sys =
     Describe ''no project'' [useFixture sys ''empty'']
       [It ''should print the hardhat version'' (it_version sys),
        It ''should print an error message if you try to compile''
           (it_no_project_compile sys)]"

definition e2e_tests :: "'w sys \<Rightarrow> 'w node" where
  "e2e_tests sys =
     Describe ''e2e tests'' [shell_set ''-e'']
       [basic_project sys, sample_projects sys, no_project sys]"

text \<open>
  A run of the suite starts with the shell's default mode (\<^verbatim>\<open>config.fatal\<close> off), no
  \<^verbatim>\<open>testDirPath\<close> and empty histories.
\<close>

definition initial :: "env \<Rightarrow> string \<Rightarrow> 'w \<Rightarrow> 'w hstate" where
  "initial e dir w =
     \<lparr>fatal = False, penv = e, cwd = dir, testDirPath = None, world = w,
      execs = [], starts = [], checks = 0\<rparr>"

definition run_e2e :: "'w sys \<Rightarrow> env \<Rightarrow> string \<Rightarrow> 'w \<Rightarrow> (string \<times> outcome) list \<times> 'w hstate" where
  "run_e2e sys e dir w = run_node (e2e_tests sys) (initial e dir w)"

section \<open>A sample system\<close>

text \<open>
  A small system to run the suite on: POSIX paths, a world that only records whether the
  artifacts directory exists, and a tool that answers the commands of the suite the way
  the documentation of the tool describes.
\<close>

fun posix_join :: "string list \<Rightarrow> string" where
  "posix_join [] = ''.''"
| "posix_join [p] = p"
| "posix_join (p # q # ps) = p @ ''/'' @ posix_join (q # ps)"

definition ok_result :: "string \<Rightarrow> ProcessResult" where
  "ok_result out = \<lparr>code = 0, stdout = out, stderr = []\<rparr>"

definition demo_spawn :: "string \<Rightarrow> env \<Rightarrow> string \<Rightarrow> bool \<Rightarrow> ProcessResult \<times> bool" where
  "demo_spawn cmd e dir w =
     (if dir = ''/tmp/hardhat-e2e-empty'' then
        (if cmd = ''node_modules/.bin/hardhat --version''
         then (ok_result (''2.9.3'' @ [CHR 0x0A]), w)
         else (\<lparr>code = 1, stdout = [],
                stderr = ''Error HH1: You are not inside a Hardhat project.''\<rparr>, w))
      else if cmd = ''node_modules/.bin/hardhat --version''
        then (ok_result (''2.9.3'' @ [CHR 0x0A]), w)
      else if cmd = ''node_modules/.bin/hardhat clean'' then (ok_result [], False)
      else if cmd = ''node_modules/.bin/hardhat compile''
        then (ok_result ''Compiled 1 Solidity file successfully'', True)
      else (ok_result ''  2 passing (1s)'', w))"

definition demo_sys :: "string \<Rightarrow> bool sys" where
  "demo_sys os =
     \<lparr>spawn = demo_spawn,
      existsSync = (\<lambda>p w. w \<and> p = ''/tmp/hardhat-e2e-basic-project/artifacts''),
      path_join = posix_join,
      os_type = os,
      copy_fixture = (\<lambda>project w. Some (''/tmp/hardhat-e2e-'' @ project, False))\<rparr>"

definition demo_state :: "bool hstate" where
  "demo_state =
     \<lparr>fatal = True, penv = Map.empty, cwd = ''/tmp/hardhat-e2e-basic-project'',
      testDirPath = Some ''/tmp/hardhat-e2e-basic-project'', world = False,
      execs = [], starts = [], checks = 0\<rparr>"

text \<open>
  The same state in the directory of the empty fixture, where the tool finds no project:
  in strict mode and in tolerant mode.
\<close>

definition no_project_result :: ProcessResult where
  "no_project_result =
     \<lparr>code = 1, stdout = [], stderr = ''Error HH1: You are not inside a Hardhat project.''\<rparr>"

definition outside_state :: "bool hstate" where
  "outside_state =
     demo_state\<lparr>cwd := ''/tmp/hardhat-e2e-empty'',
                testDirPath := Some ''/tmp/hardhat-e2e-empty''\<rparr>"

definition tolerant_state :: "bool hstate" where
  "tolerant_state = outside_state\<lparr>fatal := False\<rparr>"

definition stale_spawn :: "string \<Rightarrow> env \<Rightarrow> string \<Rightarrow> bool \<Rightarrow> ProcessResult \<times> bool" where
  "stale_spawn cmd e dir w =
     (if cmd = ''node_modules/.bin/hardhat test --parallel''
      then (ok_result (''  0 passing (1ms)'' @ [CHR 0x0A] @ ''  2 passing (1s)''), w)
      else demo_spawn cmd e dir w)"

text \<open>
  The same system with a tool whose parallel run prints the summary of a worker that ran
  no test before the summary of the worker that ran both.
\<close>

definition stale_sys :: "bool sys" where
  "stale_sys = (demo_sys ''Linux'')\<lparr>spawn := stale_spawn\<rparr>"

section \<open>Notions used in the statements\<close>

text \<open>A non-empty run of decimal digits, the text that \<^verbatim>\<open>\d+\<close> matches.\<close>

definition digits :: "string \<Rightarrow> bool" where
  "digits a = (a \<noteq> [] \<and> list_all (cls_ok Digit) a)"

text \<open>
  The command run with the ambient environment in the current directory of a state, on a
  given world: what \<^verbatim>\<open>shell.exec(cmd)\<close> hands to the operating system.
\<close>

definition invoke :: "'w sys \<Rightarrow> 'w hstate \<Rightarrow> string \<Rightarrow> 'w \<Rightarrow> ProcessResult \<times> 'w" where
  "invoke sys s cmd w = spawn sys cmd (penv s) (cwd s) w"

text \<open>
  Strict mode is in effect, every scenario body entered so far was entered in strict
  mode, and every process invocation so far was made in strict mode.
\<close>

definition strict :: "'w hstate \<Rightarrow> bool" where
  "strict s = (fatal s \<and> list_all snd (starts s) \<and> list_all ev_fatal (execs s))"

text \<open>
  The same, except that the last process invocation may have been made in tolerant mode,
  by the given command.
\<close>

definition strict_but_last :: "string \<Rightarrow> 'w hstate \<Rightarrow> bool" where
  "strict_but_last cmd s =
     (fatal s \<and> list_all snd (starts s) \<and> list_all ev_fatal (butlast (execs s)) \<and>
      (execs s = [] \<or> ev_fatal (last (execs s)) \<or> ev_cmd (last (execs s)) = cmd))"

definition keeps :: "('w hstate \<Rightarrow> bool) \<Rightarrow> ('w, 'a) prog \<Rightarrow> bool" where
  "keeps P m = (\<forall>s. P s \<longrightarrow> P (snd (m s)))"

fun all_keep :: "('w hstate \<Rightarrow> bool) \<Rightarrow> 'w node \<Rightarrow> bool"
  and all_keep_list :: "('w hstate \<Rightarrow> bool) \<Rightarrow> 'w node list \<Rightarrow> bool" where
  "all_keep P (It t b) = keeps P b"
| "all_keep P (Describe n hs cs) = (list_all (keeps P) hs \<and> all_keep_list P cs)"
| "all_keep_list P [] = True"
| "all_keep_list P (n # ns) = (all_keep P n \<and> all_keep_list P ns)"

text \<open>The process invocations a run added to the history of the state it started from.\<close>

definition new_execs :: "'w hstate \<Rightarrow> 'w hstate \<Rightarrow> exec_event list" where
  "new_execs s s' = drop (length (execs s)) (execs s')"

text \<open>
  From \<open>s\<close> to \<open>s'\<close> the ambient environment is unchanged, the history only grew, and of
  the invocations added only the first one ran with the flag set to \<^verbatim>\<open>"true"\<close>: every later
  one ran with the ambient environment.
\<close>

definition env_scoped :: "string \<Rightarrow> 'w hstate \<Rightarrow> 'w hstate \<Rightarrow> bool" where
  "env_scoped flag s s' =
     (penv s' = penv s \<and> execs s' = execs s @ new_execs s s' \<and>
      (case new_execs s s' of
         [] \<Rightarrow> True
       | g # rest \<Rightarrow> ev_env g = (penv s)(flag \<mapsto> ''true'') \<and>
                     list_all (\<lambda>e. ev_env e = penv s) rest))"

section \<open>Properties of the matcher\<close>

lemma match_here_One:
  "match_here e (One c # r) s \<longleftrightarrow> (\<exists>x t. s = x # t \<and> cls_ok c x \<and> match_here e r t)"
  by (cases s) auto

lemma match_here_lits:
  "match_here e (lits p @ r) s \<longleftrightarrow> (\<exists>t. s = p @ t \<and> match_here e r t)"
proof (induction p arbitrary: s)
  case Nil
  show ?case by (simp add: lits_def)
next
  case (Cons c p)
  have "match_here e (lits (c # p) @ r) s \<longleftrightarrow>
        (\<exists>t. s = c # t \<and> match_here e (lits p @ r) t)"
    by (cases s) (auto simp: lits_def)
  with Cons show ?case by auto
qed

lemma match_here_Plus:
  "match_here e (Plus c # r) s \<longleftrightarrow>
     (\<exists>a t. s = a @ t \<and> a \<noteq> [] \<and> list_all (cls_ok c) a \<and> match_here e r t)"
proof (induction s)
  case Nil
  show ?case by simp
next
  case (Cons x xs)
  show ?case (is "?L \<longleftrightarrow> ?R")
  proof
    assume ?L
    then have x: "cls_ok c x" and d: "match_here e (Plus c # r) xs \<or> match_here e r xs"
      by auto
    from d show ?R
    proof
      assume "match_here e (Plus c # r) xs"
      with Cons obtain a t where "xs = a @ t" "list_all (cls_ok c) a" "match_here e r t"
        by auto
      with x have "x # xs = (x # a) @ t \<and> x # a \<noteq> [] \<and> list_all (cls_ok c) (x # a) \<and>
          match_here e r t"
        by simp
      then show ?R by blast
    next
      assume "match_here e r xs"
      with x have "x # xs = [x] @ xs \<and> [x] \<noteq> [] \<and> list_all (cls_ok c) [x] \<and>
          match_here e r xs"
        by simp
      then show ?R by blast
    qed
  next
    assume ?R
    then obtain a t where a: "x # xs = a @ t" "a \<noteq> []" "list_all (cls_ok c) a"
        "match_here e r t"
      by blast
    then obtain a' where a': "a = x # a'" "xs = a' @ t"
      by (cases a) auto
    show ?L
    proof (cases "a' = []")
      case True
      with a a' show ?thesis by simp
    next
      case False
      with a a' have "match_here e (Plus c # r) xs"
        using Cons by auto
      with a a' show ?thesis by simp
    qed
  qed
qed

lemma re_search_iff:
  "re_search e r s \<longleftrightarrow> (\<exists>a t. s = a @ t \<and> match_here e r t)"
proof (induction s)
  case Nil
  show ?case by simp
next
  case (Cons x xs)
  have "(\<exists>a t. x # xs = a @ t \<and> match_here e r t) \<longleftrightarrow>
        match_here e r (x # xs) \<or> (\<exists>a t. xs = a @ t \<and> match_here e r t)"
    by (auto simp: Cons_eq_append_conv)
  with Cons show ?case by simp
qed

lemma re_test_literal:
  "re_test (unanchored (lits p)) s \<longleftrightarrow> (\<exists>a b. s = a @ p @ b)"
  using match_here_lits [of False p "[]"]
  by (simp add: re_test_def unanchored_def re_search_iff) blast

lemma re_test_HH15: "re_test re_HH15 s \<longleftrightarrow> (\<exists>a b. s = a @ ''HH1'' @ b)"
proof -
  have "match_here False [Opt (Lit CHR ''5'')] t" for t
    by (cases t) auto
  then show ?thesis
    using match_here_lits [of False "''HH1''" "[Opt (Lit CHR ''5'')]"]
    by (simp add: re_HH15_def re_test_def unanchored_def re_search_iff) blast
qed

lemma re_test_version:
  "re_test versionRegExp s \<longleftrightarrow>
     (\<exists>a b c. s = a @ ''.'' @ b @ ''.'' @ c @ [CHR 0x0A] \<and> digits a \<and> digits b \<and> digits c)"
  unfolding re_test_def versionRegExp_def digits_def
  apply (simp add: match_here_Plus match_here_One)
  apply (rule iffI)
   apply (elim exE conjE)
   apply (simp; blast)
  apply (elim exE conjE)
  apply simp
  apply blast
  done

section \<open>One step of a scenario body\<close>

lemma record_exec_simps:
  "fatal (record_exec cmd e w' s) = fatal s"
  "penv (record_exec cmd e w' s) = penv s"
  "cwd (record_exec cmd e w' s) = cwd s"
  "testDirPath (record_exec cmd e w' s) = testDirPath s"
  "world (record_exec cmd e w' s) = w'"
  "starts (record_exec cmd e w' s) = starts s"
  "checks (record_exec cmd e w' s) = checks s"
  "execs (record_exec cmd e w' s) =
     execs s @ [\<lparr>ev_cmd = cmd, ev_env = e, ev_cwd = cwd s, ev_fatal = fatal s\<rparr>]"
  by (simp_all add: record_exec_def)

lemma bind_shell_exec:
  "bind (shell_exec sys cmd eo) f s =
     (case spawn sys cmd (env_of eo s) (cwd s) (world s) of
        (r, w') \<Rightarrow>
          if code r \<noteq> 0 \<and> fatal s
          then (Inl (CommandFailed r), record_exec cmd (env_of eo s) w' s)
          else f r (record_exec cmd (env_of eo s) w' s))"
  by (simp add: bind_def shell_exec_def split: prod.splits)

lemma bind_chai_assert:
  "bind (chai_assert b msg) f s =
     (if b then f () (s\<lparr>checks := Suc (checks s)\<rparr>) else (Inl (AssertionError msg), s))"
  by (simp add: bind_def chai_assert_def)

lemma bind_shell_set:
  "bind (shell_set ''-e'') f s = f () (s\<lparr>fatal := True\<rparr>)"
  "bind (shell_set ''+e'') f s = f () (s\<lparr>fatal := False\<rparr>)"
  by (simp_all add: bind_def shell_set_def)

lemma bind_join_testDirPath:
  "bind (join_testDirPath sys seg) f s =
     (case testDirPath s of
        None \<Rightarrow> (Inl TypeError, s)
      | Some dir \<Rightarrow> f (path_join sys [dir, seg]) s)"
  by (simp add: bind_def join_testDirPath_def split: option.splits)

lemma bind_assert_exists:
  "bind (assert_exists sys p) f s =
     (if existsSync sys p (world s) then f () (s\<lparr>checks := Suc (checks s)\<rparr>)
      else (Inl (AssertionError ''expected value to be true''), s))"
  by (simp add: bind_def assert_exists_def assert_isTrue_def chai_assert_def)

lemmas assert_defs = assert_equal_def assert_isTrue_def assert_match_def assert_notMatch_def

lemmas step_simps = bind_join_testDirPath bind_assert_exists bind_shell_exec bind_chai_assert
  bind_shell_set assert_defs record_exec_simps env_of_def invoke_def

lemma generate_project_eq:
  "generate_project sys flag s =
     (case spawn sys (hardhatBinary sys) ((penv s)(flag \<mapsto> ''true'')) (cwd s) (world s) of
        (r, w') \<Rightarrow>
          (if code r \<noteq> 0 \<and> fatal s then Inl (CommandFailed r) else Inr (),
           record_exec (hardhatBinary sys) ((penv s)(flag \<mapsto> ''true'')) w' s))"
  by (simp add: generate_project_def bind_def shell_exec_def env_of_def ret_def
      split: prod.splits)

lemma outcome_of_Passed: "outcome_of r = Passed \<longleftrightarrow> r = Inr ()"
  by (auto simp: outcome_of_def split: sum.splits exn.splits)

section \<open>When each scenario passes\<close>

lemma version_pass:
  "fst (it_version sys s) = Inr () \<longleftrightarrow>
     (case invoke sys s (hh sys ''--version'') (world s) of
        (r, w1) \<Rightarrow> code r = 0 \<and> re_test versionRegExp (stdout r))"
  by (simp add: it_version_def step_simps chai_assert_def split: prod.splits)

lemma programmatic_pass:
  "fst (it_programmatic sys s) = Inr () \<longleftrightarrow>
     (case invoke sys s (hh sys ''clean'') (world s) of (c1, w1) \<Rightarrow>
      case invoke sys s (hh sys ''run ./scripts/multi-run-test.js'') w1 of (r, w2) \<Rightarrow>
      case invoke sys s (hh sys ''clean'') w2 of (c2, w3) \<Rightarrow>
        code c1 = 0 \<and> code r = 0 \<and> re_test re_2_passing (stdout r) \<and>
        \<not> re_test re_0_passing (stdout r) \<and> code c2 = 0)"
  by (simp add: it_programmatic_def step_simps chai_assert_def split: prod.splits)

lemma parallel_pass:
  "fst (it_parallel sys s) = Inr () \<longleftrightarrow>
     (case invoke sys s (hh sys ''clean'') (world s) of (c1, w1) \<Rightarrow>
      case invoke sys s (hh sys ''test --parallel'') w1 of (r, w2) \<Rightarrow>
      case invoke sys s (hh sys ''clean'') w2 of (c2, w3) \<Rightarrow>
        code c1 = 0 \<and> code r = 0 \<and> re_test re_2_passing (stdout r) \<and> code c2 = 0)"
  by (simp add: it_parallel_def step_simps chai_assert_def split: prod.splits)

lemma no_project_compile_pass:
  "fst (it_no_project_compile sys s) = Inr () \<longleftrightarrow>
     (case invoke sys s (hh sys ''compile'') (world s) of
        (r, w1) \<Rightarrow>
          code r = 1 \<and> re_test re_not_inside (stderr r) \<and> re_test re_HH15 (stderr r))"
  by (simp add: it_no_project_compile_def step_simps chai_assert_def split: prod.splits)

lemma no_project_compile_state:
  "snd (it_no_project_compile sys s) =
     (case invoke sys s (hh sys ''compile'') (world s) of
        (r, w') \<Rightarrow>
          s\<lparr>fatal := True, world := w',
            execs := execs s @ [\<lparr>ev_cmd = hh sys ''compile'', ev_env = penv s,
                                ev_cwd = cwd s, ev_fatal = False\<rparr>],
            checks := checks s +
              (if code r \<noteq> 1 then 0
               else if \<not> re_test re_not_inside (stderr r) then 1
               else if \<not> re_test re_HH15 (stderr r) then 2 else 3)\<rparr>)"
  by (simp add: it_no_project_compile_def invoke_def bind_shell_exec bind_chai_assert
        bind_shell_set assert_defs env_of_def chai_assert_def record_exec_def
      split: prod.splits)

lemma title_suggested: "title (suggested sys c) = suggested_title c"
  by (simp add: suggested_def)

lemma run_suggested:
  "run_node (suggested sys c) s =
     (case spawn sys c (penv s) (cwd s) (world s) of
        (r, w') \<Rightarrow>
          ([(suggested_title c,
             if code r \<noteq> 0 \<and> fatal s then Failed (CommandFailed r) else Passed)],
           record_exec c (penv s) w'
             (s\<lparr>starts := starts s @ [(suggested_title c, fatal s)]\<rparr>)))"
  by (simp add: suggested_def it_suggested_def bind_shell_exec env_of_def ret_def
        outcome_of_def record_exec_def split: prod.splits)

lemma hd_run_nodes_It:
  "hd (fst (run_nodes (It t b # ns) s)) =
     (t, outcome_of (fst (b (s\<lparr>starts := starts s @ [(t, fatal s)]\<rparr>))))"
  by (simp split: prod.splits)

lemma run_fixture_group:
  "copy_fixture sys fx (world s) = Some (dir, w) \<Longrightarrow>
   run_node (Describe n [useFixture sys fx] cs) s =
     run_nodes cs (s\<lparr>world := w, testDirPath := Some dir, cwd := dir\<rparr>)"
  by (simp add: useFixture_def)

lemma first_version_outcome:
  assumes "copy_fixture sys fx (world s) = Some (dir, w)"
  shows "hd (fst (run_node (Describe n [useFixture sys fx] (It t (it_version sys) # ns)) s)) =
           (t, Passed) \<longleftrightarrow>
         (case spawn sys (hh sys ''--version'') (penv s) dir w of
            (r, w1) \<Rightarrow> code r = 0 \<and> re_test versionRegExp (stdout r))"
  by (simp only: run_fixture_group [OF assms] hd_run_nodes_It)
     (simp add: outcome_of_Passed version_pass invoke_def)

section \<open>The strict shell mode is an invariant of the run\<close>

lemma keeps_bind: "keeps P m \<Longrightarrow> (\<And>x. keeps P (f x)) \<Longrightarrow> keeps P (bind m f)"
  by (auto simp: keeps_def bind_def split: prod.splits sum.splits)

lemma keeps_ret: "keeps P (ret x)"
  by (simp add: keeps_def ret_def)

lemma strict_record_exec: "strict (record_exec cmd e w s) = strict s"
  by (auto simp: strict_def record_exec_def)

lemma keeps_shell_exec: "keeps strict (shell_exec sys cmd eo)"
  by (simp add: keeps_def shell_exec_def strict_record_exec split: prod.splits)

lemma keeps_chai_assert: "keeps strict (chai_assert b msg)"
  by (simp add: keeps_def chai_assert_def strict_def)

lemma keeps_asserts:
  "keeps strict (assert_equal a b)"
  "keeps strict (assert_isTrue c)"
  "keeps strict (assert_match str re)"
  "keeps strict (assert_notMatch str re msg)"
  by (simp_all add: assert_defs keeps_chai_assert)

lemma keeps_assert_exists: "keeps strict (assert_exists sys p)"
  by (simp add: keeps_def assert_exists_def assert_isTrue_def chai_assert_def strict_def)

lemma keeps_join_testDirPath: "keeps strict (join_testDirPath sys seg)"
  by (simp add: keeps_def join_testDirPath_def split: option.splits)

lemma keeps_useFixture: "keeps strict (useFixture sys project)"
  by (simp add: keeps_def useFixture_def strict_def split: option.splits)

lemma keeps_skip_on_windows: "keeps strict (skip_on_windows sys)"
  by (simp add: keeps_def skip_on_windows_def)

lemma keeps_generate_project: "keeps strict (generate_project sys flag)"
  by (simp add: keeps_def generate_project_eq strict_record_exec split: prod.splits)

lemmas keeps_intros = keeps_bind keeps_ret keeps_shell_exec keeps_asserts keeps_assert_exists
  keeps_join_testDirPath

lemma keeps_it_suggested: "keeps strict (it_suggested sys cmd)"
  unfolding it_suggested_def by (intro keeps_intros)

lemma keeps_it_version: "keeps strict (it_version sys)"
  unfolding it_version_def by (intro keeps_intros)

lemma keeps_it_compile: "keeps strict (it_compile sys)"
  unfolding it_compile_def by (intro keeps_intros)

lemma keeps_it_programmatic: "keeps strict (it_programmatic sys)"
  unfolding it_programmatic_def by (intro keeps_intros)

lemma keeps_it_test_files: "keeps strict (it_test_files sys)"
  unfolding it_test_files_def by (intro keeps_intros)

lemma keeps_it_parallel: "keeps strict (it_parallel sys)"
  unfolding it_parallel_def by (intro keeps_intros)

lemma run_hooks_keeps:
  "list_all (keeps P) hs \<Longrightarrow> P s \<Longrightarrow> P (snd (run_hooks hs s))"
proof (induction hs arbitrary: s)
  case Nil
  then show ?case by simp
next
  case (Cons h hs)
  from Cons.prems have hs: "list_all (keeps P) hs" and "keeps P h"
    by simp_all
  with Cons.prems have h: "P (snd (h s))"
    by (simp add: keeps_def)
  show ?case
  proof (cases "h s")
    case (Pair r s')
    with h Cons.IH [OF hs, of s'] show ?thesis
      by (cases r) simp_all
  qed
qed

lemma run_node_keeps_strict:
  fixes n :: "'w node" and ns :: "'w node list"
  shows "all_keep strict n \<Longrightarrow> strict s \<Longrightarrow> strict (snd (run_node n s))"
    and run_nodes_keeps_strict:
      "all_keep_list strict ns \<Longrightarrow> strict s' \<Longrightarrow> strict (snd (run_nodes ns s'))"
proof (induction n s and ns s' rule: run_node_run_nodes.induct)
  case (1 t b s)
  from "1.prems" have "strict (s\<lparr>starts := starts s @ [(t, fatal s)]\<rparr>)"
    by (simp add: strict_def)
  with "1.prems" have "strict (snd (b (s\<lparr>starts := starts s @ [(t, fatal s)]\<rparr>)))"
    by (simp add: keeps_def)
  then show ?case
    by (cases "b (s\<lparr>starts := starts s @ [(t, fatal s)]\<rparr>)") simp
next
  case (2 n hs cs s)
  then have h: "strict (snd (run_hooks hs s))"
    using run_hooks_keeps [of strict hs s] by simp
  show ?case
  proof (cases "run_hooks hs s")
    case (Pair r s1)
    with h have s1: "strict s1" by simp
    show ?thesis
    proof (cases r)
      case None
      with Pair s1 "2.prems" "2.IH" [of r s1] show ?thesis by simp
    next
      case (Some e)
      with Pair s1 show ?thesis by (cases e) simp_all
    qed
  qed
next
  case (3 s)
  then show ?case by simp
next
  case (4 n ns s)
  obtain rs s1 where r1: "run_node n s = (rs, s1)" by (cases "run_node n s")
  obtain rs' s2 where r2: "run_nodes ns s1 = (rs', s2)" by (cases "run_nodes ns s1")
  from "4.prems" r1 "4.IH"(1) have "strict s1" by simp
  with "4.prems" r1 r2 "4.IH"(2) [of rs s1] have "strict s2" by simp
  with r1 r2 show ?case by simp
qed

lemma all_keep_suggested: "all_keep_list strict (map (suggested sys) cmds)"
  by (induction cmds) (simp_all add: suggested_def keeps_it_suggested)

lemma all_keep_first_groups:
  "all_keep_list strict [basic_project sys, sample_projects sys]"
  by (simp add: basic_project_def sample_projects_def
        basic_sample_project_def advanced_sample_project_def advanced_ts_sample_project_def
        all_keep_suggested keeps_useFixture keeps_skip_on_windows keeps_generate_project
        keeps_it_version keeps_it_compile keeps_it_programmatic keeps_it_test_files
        keeps_it_parallel)

lemma strict_imp_but_last: "strict s \<Longrightarrow> strict_but_last cmd s"
proof -
  assume s: "strict s"
  then have "list_all ev_fatal (butlast (execs s))"
    by (auto simp: strict_def list_all_iff dest: in_set_butlastD)
  moreover have "execs s = [] \<or> ev_fatal (last (execs s))"
  proof (cases "execs s = []")
    case True
    then show ?thesis by simp
  next
    case False
    then have "last (execs s) \<in> set (execs s)" by (rule last_in_set)
    with s show ?thesis by (simp add: strict_def list_all_iff)
  qed
  ultimately show ?thesis
    using s by (auto simp: strict_def strict_but_last_def)
qed

lemma no_project_compile_but_last:
  assumes "strict s"
  shows "strict_but_last (hh sys ''compile'')
           (snd (run_node (It t (it_no_project_compile sys)) s))"
proof -
  obtain r w' where
    "invoke sys (s\<lparr>starts := starts s @ [(t, fatal s)]\<rparr>) (hh sys ''compile'') (world s) =
       (r, w')"
    by (cases "invoke sys (s\<lparr>starts := starts s @ [(t, fatal s)]\<rparr>) (hh sys ''compile'')
                 (world s)")
  with assms show ?thesis
    using no_project_compile_state [of sys "s\<lparr>starts := starts s @ [(t, fatal s)]\<rparr>"]
    by (cases "it_no_project_compile sys (s\<lparr>starts := starts s @ [(t, fatal s)]\<rparr>)")
       (simp add: strict_def strict_but_last_def)
qed

lemma no_project_but_last:
  assumes "strict s"
  shows "strict_but_last (hh sys ''compile'') (snd (run_node (no_project sys) s))"
proof (cases "copy_fixture sys ''empty'' (world s)")
  case None
  with strict_imp_but_last [OF assms] show ?thesis
    by (simp add: no_project_def useFixture_def)
next
  case (Some p)
  obtain dir w where p: "p = (dir, w)" by (cases p)
  define s1 where "s1 = s\<lparr>world := w, testDirPath := Some dir, cwd := dir\<rparr>"
  define s2 where
    "s2 = snd (run_node (It ''should print the hardhat version'' (it_version sys)) s1)"
  from assms have "strict s1"
    by (simp add: s1_def strict_def)
  then have "strict s2"
    unfolding s2_def by (rule run_node_keeps_strict [rotated]) (simp add: keeps_it_version)
  then have "strict_but_last (hh sys ''compile'')
      (snd (run_node (It ''should print an error message if you try to compile''
                        (it_no_project_compile sys)) s2))"
    by (rule no_project_compile_but_last)
  moreover have "snd (run_node (no_project sys) s) =
      snd (run_node (It ''should print an error message if you try to compile''
                       (it_no_project_compile sys)) s2)"
    using Some p
    by (simp add: no_project_def useFixture_def s1_def s2_def split: prod.splits)
  ultimately show ?thesis by simp
qed

lemma but_last_after_suite:
  "strict_but_last (hh sys ''compile'') (snd (run_e2e sys e dir w))"
proof -
  define s2 where "s2 = snd (run_nodes [basic_project sys, sample_projects sys]
                               ((initial e dir w)\<lparr>fatal := True\<rparr>))"
  have "strict ((initial e dir w)\<lparr>fatal := True\<rparr>)"
    by (simp add: strict_def initial_def)
  then have "strict s2"
    unfolding s2_def using run_nodes_keeps_strict all_keep_first_groups by blast
  then have "strict_but_last (hh sys ''compile'') (snd (run_node (no_project sys) s2))"
    by (rule no_project_but_last)
  moreover have "snd (run_e2e sys e dir w) = snd (run_node (no_project sys) s2)"
    by (simp add: run_e2e_def e2e_tests_def shell_set_def s2_def split: prod.splits)
  ultimately show ?thesis by simp
qed

section \<open>The environment of the sample-project groups\<close>

lemma suggested_run_env:
  "run_nodes (map (suggested sys) cmds) s = (rs, s') \<Longrightarrow>
     penv s' = penv s \<and>
     (\<exists>es. execs s' = execs s @ es \<and> list_all (\<lambda>e. ev_env e = penv s) es)"
proof (induction cmds arbitrary: s rs s')
  case Nil
  then show ?case by simp
next
  case (Cons c cmds)
  obtain r w' where sp: "spawn sys c (penv s) (cwd s) (world s) = (r, w')"
    by (cases "spawn sys c (penv s) (cwd s) (world s)")
  define s1 where
    "s1 = record_exec c (penv s) w' (s\<lparr>starts := starts s @ [(suggested_title c, fatal s)]\<rparr>)"
  obtain rs2 s2 where r2: "run_nodes (map (suggested sys) cmds) s1 = (rs2, s2)"
    by (cases "run_nodes (map (suggested sys) cmds) s1")
  from Cons.prems sp r2 have s': "s' = s2"
    by (simp add: run_suggested s1_def)
  have p1: "penv s1 = penv s" and e1: "execs s1 = execs s @
      [\<lparr>ev_cmd = c, ev_env = penv s, ev_cwd = cwd s, ev_fatal = fatal s\<rparr>]"
    by (simp_all add: s1_def record_exec_def)
  from Cons.IH [OF r2] obtain es where
    "penv s2 = penv s1" "execs s2 = execs s1 @ es" "list_all (\<lambda>e. ev_env e = penv s1) es"
    by blast
  with p1 e1 s' have "penv s' = penv s \<and>
     execs s' = execs s @
       (\<lparr>ev_cmd = c, ev_env = penv s, ev_cwd = cwd s, ev_fatal = fatal s\<rparr> # es) \<and>
     list_all (\<lambda>e. ev_env e = penv s)
       (\<lparr>ev_cmd = c, ev_env = penv s, ev_cwd = cwd s, ev_fatal = fatal s\<rparr> # es)"
    by simp
  then show ?case by blast
qed

lemma sample_group_env:
  "env_scoped flag s
     (snd (run_node (Describe n [useFixture sys fx, generate_project sys flag]
                       (map (suggested sys) cmds)) s))"
proof (cases "copy_fixture sys fx (world s)")
  case None
  then show ?thesis
    by (simp add: useFixture_def env_scoped_def new_execs_def)
next
  case (Some p)
  obtain dir w where p: "p = (dir, w)" by (cases p)
  define s1 where "s1 = s\<lparr>world := w, testDirPath := Some dir, cwd := dir\<rparr>"
  obtain r w' where sp:
    "spawn sys (hardhatBinary sys) ((penv s)(flag \<mapsto> ''true'')) dir w = (r, w')"
    by (cases "spawn sys (hardhatBinary sys) ((penv s)(flag \<mapsto> ''true'')) dir w")
  define s2 where "s2 = record_exec (hardhatBinary sys) ((penv s)(flag \<mapsto> ''true'')) w' s1"
  define g where "g = \<lparr>ev_cmd = hardhatBinary sys, ev_env = (penv s)(flag \<mapsto> ''true''),
                       ev_cwd = dir, ev_fatal = fatal s\<rparr>"
  have p2: "penv s2 = penv s" and e2: "execs s2 = execs s @ [g]"
    by (simp_all add: s2_def s1_def g_def record_exec_def)
  have hooks: "run_hooks [useFixture sys fx, generate_project sys flag] s =
      (if code r \<noteq> 0 \<and> fatal s then Some (CommandFailed r) else None, s2)"
    using Some p sp
    by (simp add: useFixture_def generate_project_eq s1_def s2_def)
  have node: "snd (run_node (Describe n [useFixture sys fx, generate_project sys flag]
                              (map (suggested sys) cmds)) s) =
      (if code r \<noteq> 0 \<and> fatal s then s2
       else snd (run_nodes (map (suggested sys) cmds) s2))"
    using hooks by (simp del: run_hooks.simps)
  show ?thesis
  proof (cases "code r \<noteq> 0 \<and> fatal s")
    case True
    with p2 e2 show ?thesis
      unfolding node by (simp add: env_scoped_def new_execs_def g_def)
  next
    case False
    obtain rs s3 where r3: "run_nodes (map (suggested sys) cmds) s2 = (rs, s3)"
      by (cases "run_nodes (map (suggested sys) cmds) s2")
    from suggested_run_env [OF r3] p2 e2 obtain es where
      "penv s3 = penv s" "execs s3 = execs s @ g # es" "list_all (\<lambda>e. ev_env e = penv s) es"
      by auto
    moreover have "(if code r \<noteq> 0 \<and> fatal s then s2
       else snd (run_nodes (map (suggested sys) cmds) s2)) = s3"
      using False r3 by auto
    ultimately show ?thesis
      unfolding node by (simp add: env_scoped_def new_execs_def g_def)
  qed
qed

lemma titles_suggested: "titles_list (map (suggested sys) cmds) = map suggested_title cmds"
  by (induction cmds) (simp_all add: suggested_def)

lemma sample_titles:
  "titles (sample_projects sys) =
     map suggested_title
       (basic_sample_commands sys @ advanced_sample_commands sys @
        advanced_ts_sample_commands sys)"
  by (simp add: sample_projects_def basic_sample_project_def advanced_sample_project_def
        advanced_ts_sample_project_def titles_suggested)

section \<open>Running the sample system\<close>

lemmas demo_defs = demo_sys_def demo_spawn_def demo_state_def stale_sys_def stale_spawn_def
  ok_result_def hh_def hardhatBinary_def

lemmas re_defs = re_test_def versionRegExp_def re_compiled_def re_2_passing_def
  re_0_passing_def re_not_inside_def re_HH15_def unanchored_def lits_def

section \<open>The claims\<close>

text \<open>
  C1. For the basic-project fixture the claim says that the parallel run and the serial
  programmatic run report the same passing count and that no run's output matches
  \<^verbatim>\<open>/0 passing/\<close>. The code checks less of the parallel run. As amended: the parallel
  scenario passes exactly when clean, \<^verbatim>\<open>test --parallel\<close> and the final clean exit with
  code 0 and the parallel output matches \<^verbatim>\<open>/2 passing/\<close>; the serial programmatic scenario
  passes exactly when its three commands exit with code 0, its output matches
  \<^verbatim>\<open>/2 passing/\<close> and does not match \<^verbatim>\<open>/0 passing/\<close>. Only the serial output is checked
  against \<^verbatim>\<open>/0 passing/\<close>.
\<close>

theorem passing_count_checks:
  "(fst (it_parallel sys s) = Inr () \<longleftrightarrow>
      (case invoke sys s (hh sys ''clean'') (world s) of (c1, w1) \<Rightarrow>
       case invoke sys s (hh sys ''test --parallel'') w1 of (r, w2) \<Rightarrow>
       case invoke sys s (hh sys ''clean'') w2 of (c2, w3) \<Rightarrow>
         code c1 = 0 \<and> code r = 0 \<and> re_test re_2_passing (stdout r) \<and> code c2 = 0)) \<and>
   (fst (it_programmatic sys s) = Inr () \<longleftrightarrow>
      (case invoke sys s (hh sys ''clean'') (world s) of (c1, w1) \<Rightarrow>
       case invoke sys s (hh sys ''run ./scripts/multi-run-test.js'') w1 of (r, w2) \<Rightarrow>
       case invoke sys s (hh sys ''clean'') w2 of (c2, w3) \<Rightarrow>
         code c1 = 0 \<and> code r = 0 \<and> re_test re_2_passing (stdout r) \<and>
         \<not> re_test re_0_passing (stdout r) \<and> code c2 = 0))"
  by (simp only: parallel_pass programmatic_pass)

theorem passing_count_checks_witness:
  "fst (it_parallel (demo_sys ''Linux'') demo_state) = Inr () \<and>
   fst (it_programmatic (demo_sys ''Linux'') demo_state) = Inr ()"
  using passing_count_checks [of "demo_sys ''Linux''" demo_state]
  by (simp add: invoke_def demo_defs re_defs)

text \<open>
  The claim fails on a tool whose parallel run prints \<^verbatim>\<open>0 passing\<close> for one worker and
  \<^verbatim>\<open>2 passing\<close> for another: both scenarios pass, and the parallel output matches
  \<^verbatim>\<open>/0 passing/\<close>.
\<close>

theorem parallel_zero_passing_cex:
  "fst (it_parallel stale_sys demo_state) = Inr () \<and>
   fst (it_programmatic stale_sys demo_state) = Inr () \<and>
   re_test re_0_passing
     (stdout (fst (invoke stale_sys demo_state (hh stale_sys ''test --parallel'') False)))"
  by (simp add: parallel_pass programmatic_pass invoke_def demo_defs re_defs)

text \<open>
  C2. The claim says that every scenario generated from a suggested command contains an
  assertion on the exit code and that no scenario passes without an assertion call
  evaluating true. The bodies only launch the command. As amended: a suggested-command
  scenario makes no assertion call and exactly one process invocation, with the ambient
  environment; it fails, with the failure of the invocation, exactly when the command
  exits non-zero while the strict shell mode is in effect, and passes otherwise.
\<close>

theorem suggested_launch_only:
  assumes "invoke sys s cmd (world s) = (r, w')"
  shows "fst (run_node (suggested sys cmd) s) =
           [(suggested_title cmd,
             if fatal s \<and> code r \<noteq> 0 then Failed (CommandFailed r) else Passed)] \<and>
         checks (snd (run_node (suggested sys cmd) s)) = checks s \<and>
         new_execs s (snd (run_node (suggested sys cmd) s)) =
           [\<lparr>ev_cmd = cmd, ev_env = penv s, ev_cwd = cwd s, ev_fatal = fatal s\<rparr>]"
  using assms
  by (simp add: run_suggested invoke_def new_execs_def record_exec_def)

theorem suggested_launch_only_witness:
  "invoke (demo_sys ''Linux'') demo_state ''node scripts/sample-script.js'' (world demo_state) =
     (ok_result ''  2 passing (1s)'', False) \<and>
   fst (run_node (suggested (demo_sys ''Linux'') ''node scripts/sample-script.js'') demo_state) =
     [(suggested_title ''node scripts/sample-script.js'', Passed)] \<and>
   checks (snd (run_node (suggested (demo_sys ''Linux'') ''node scripts/sample-script.js'')
                  demo_state)) = 0"
proof -
  have h: "invoke (demo_sys ''Linux'') demo_state ''node scripts/sample-script.js''
             (world demo_state) = (ok_result ''  2 passing (1s)'', False)"
    by (simp add: invoke_def demo_defs)
  show ?thesis
    using h suggested_launch_only [OF h]
    by (simp add: ok_result_def demo_state_def)
qed

text \<open>
  On the sample system the four scenarios of the basic sample project pass, and no
  assertion call was made.
\<close>

theorem pass_without_assertion_cex:
  "map snd (fst (run_node (basic_sample_project (demo_sys ''Linux'')) demo_state)) =
     [Passed, Passed, Passed, Passed] \<and>
   checks (snd (run_node (basic_sample_project (demo_sys ''Linux'')) demo_state)) = 0"
  by (simp add: basic_sample_project_def basic_sample_commands_def useFixture_def
        generate_project_eq run_suggested record_exec_def demo_defs)

text \<open>
  C3. For every process invocation that exits non-zero: when the strict shell mode is in
  effect, the invocation fails with \<open>CommandFailed\<close> and the scenario that made it is
  reported failed with that failure; when the tolerant mode is in effect, the invocation
  returns the result, and the rest of the scenario runs with it.
\<close>

theorem strict_and_tolerant_exec:
  assumes "spawn sys cmd (env_of eo s) (cwd s) (world s) = (r, w')" and "code r \<noteq> 0"
  shows "(fatal s \<longrightarrow>
            fst (shell_exec sys cmd eo s) = Inl (CommandFailed r) \<and>
            fst (run_node (It t (bind (shell_exec sys cmd eo) f)) s) =
              [(t, Failed (CommandFailed r))]) \<and>
         (\<not> fatal s \<longrightarrow>
            fst (shell_exec sys cmd eo s) = Inr r \<and>
            bind (shell_exec sys cmd eo) f s = f r (record_exec cmd (env_of eo s) w' s))"
  using assms
  by (simp add: bind_shell_exec shell_exec_def env_of_def outcome_of_def
      split: prod.splits option.splits)

theorem strict_and_tolerant_exec_witness:
  "fst (shell_exec (demo_sys ''Linux'') ''node_modules/.bin/hardhat compile'' None
          outside_state) = Inl (CommandFailed no_project_result) \<and>
   fst (run_node (It ''launch'' (bind (shell_exec (demo_sys ''Linux'')
                                   ''node_modules/.bin/hardhat compile'' None)
                                   (\<lambda>_. ret ())))
          outside_state) = [(''launch'', Failed (CommandFailed no_project_result))] \<and>
   fst (shell_exec (demo_sys ''Linux'') ''node_modules/.bin/hardhat compile'' None
          tolerant_state) = Inr no_project_result \<and>
   fst (bind (shell_exec (demo_sys ''Linux'') ''node_modules/.bin/hardhat compile'' None)
          (\<lambda>_. ret ()) tolerant_state) = Inr ()"
proof -
  have h1: "spawn (demo_sys ''Linux'') ''node_modules/.bin/hardhat compile''
              (env_of None outside_state) (cwd outside_state) (world outside_state) =
            (no_project_result, False)"
    by (simp add: demo_defs outside_state_def no_project_result_def env_of_def)
  have h2: "spawn (demo_sys ''Linux'') ''node_modules/.bin/hardhat compile''
              (env_of None tolerant_state) (cwd tolerant_state) (world tolerant_state) =
            (no_project_result, False)"
    by (simp add: demo_defs outside_state_def tolerant_state_def no_project_result_def
          env_of_def)
  have c: "code no_project_result \<noteq> 0"
    by (simp add: no_project_result_def)
  have f: "fatal outside_state" "\<not> fatal tolerant_state"
    by (simp_all add: outside_state_def tolerant_state_def demo_state_def)
  show ?thesis
    using strict_and_tolerant_exec [OF h1 c, of "''launch''" "\<lambda>_. ret ()"]
      strict_and_tolerant_exec [OF h2 c, of "''launch''" "\<lambda>_. ret ()"] f
    by (simp add: ret_def)
qed

text \<open>
  C4. The scenario that compiles outside a project passes exactly when the tool exits
  with code 1 and its standard error matches \<^verbatim>\<open>/You are not inside/\<close> and \<^verbatim>\<open>/HH15?/\<close>,
  whatever the shell mode at its start. The first pattern holds of the texts that
  contain \<^verbatim>\<open>You are not inside\<close>, the second of those that contain \<^verbatim>\<open>HH1\<close> or \<^verbatim>\<open>HH15\<close>.
\<close>

theorem outside_project_diagnostics:
  "(fst (it_no_project_compile sys s) = Inr () \<longleftrightarrow>
      (case invoke sys s (hh sys ''compile'') (world s) of
         (r, w1) \<Rightarrow>
           code r = 1 \<and> re_test re_not_inside (stderr r) \<and> re_test re_HH15 (stderr r))) \<and>
   (re_test re_not_inside err \<longleftrightarrow> (\<exists>a b. err = a @ ''You are not inside'' @ b)) \<and>
   (re_test re_HH15 err \<longleftrightarrow> (\<exists>a b. err = a @ ''HH1'' @ b \<or> err = a @ ''HH15'' @ b))"
proof -
  have "(\<exists>a b. err = a @ ''HH1'' @ b) \<longleftrightarrow>
        (\<exists>a b. err = a @ ''HH1'' @ b \<or> err = a @ ''HH15'' @ b)"
  proof
    assume "\<exists>a b. err = a @ ''HH1'' @ b"
    then show "\<exists>a b. err = a @ ''HH1'' @ b \<or> err = a @ ''HH15'' @ b" by blast
  next
    assume "\<exists>a b. err = a @ ''HH1'' @ b \<or> err = a @ ''HH15'' @ b"
    then obtain a b where "err = a @ ''HH1'' @ b \<or> err = a @ ''HH1'' @ (''5'' @ b)"
      by auto
    then show "\<exists>a b. err = a @ ''HH1'' @ b" by blast
  qed
  then show ?thesis
    by (simp only: no_project_compile_pass re_test_HH15 re_not_inside_def re_test_literal)
qed

theorem outside_project_diagnostics_witness:
  "fst (it_no_project_compile (demo_sys ''Linux'') outside_state) = Inr () \<and>
   fst (invoke (demo_sys ''Linux'') outside_state ''node_modules/.bin/hardhat compile'' False) =
     no_project_result"
  using outside_project_diagnostics [of "demo_sys ''Linux''" outside_state]
  by (simp add: invoke_def demo_defs re_defs outside_state_def no_project_result_def)

text \<open>
  C5. When the platform-conditional skip of the sample-projects group fires (the
  before-hook of the group finds \<^verbatim>\<open>os.type()\<close> to be \<^verbatim>\<open>Windows_NT\<close>), each of the 26
  scenarios of the group is reported skipped and nothing of the subtree executes: no
  body, no fixture hook and no generation hook, so the state after the group is the state
  before it. The run of the whole suite then ends in the state in which the suite
  without that group ends.
\<close>

theorem skipped_group_runs_nothing:
  assumes "os_type sys = ''Windows_NT''"
  shows "run_node (sample_projects sys) s =
           (map (\<lambda>t. (t, Skipped)) (titles (sample_projects sys)), s) \<and>
         length (titles (sample_projects sys)) = 26 \<and>
         snd (run_e2e sys e dir w) =
           snd (run_node (Describe ''e2e tests'' [shell_set ''-e'']
                            [basic_project sys, no_project sys])
                  (initial e dir w))"
proof -
  have a: "run_node (sample_projects sys) s' =
      (map (\<lambda>t. (t, Skipped)) (titles (sample_projects sys)), s')" for s'
    using assms by (simp add: sample_projects_def skip_on_windows_def)
  have b: "length (titles (sample_projects sys)) = 26"
    by (simp add: sample_titles basic_sample_commands_def advanced_sample_commands_def
          advanced_ts_sample_commands_def)
  have c: "snd (run_e2e sys e dir w) =
       snd (run_node (Describe ''e2e tests'' [shell_set ''-e'']
                        [basic_project sys, no_project sys])
              (initial e dir w))"
    by (simp add: run_e2e_def e2e_tests_def shell_set_def a split: prod.splits)
  from a b c show ?thesis by simp
qed

theorem skipped_group_runs_nothing_witness:
  "os_type (demo_sys ''Windows_NT'') = ''Windows_NT'' \<and>
   snd (run_node (sample_projects (demo_sys ''Windows_NT'')) demo_state) = demo_state \<and>
   map snd (fst (run_node (sample_projects (demo_sys ''Windows_NT'')) demo_state)) =
     replicate 26 Skipped"
proof -
  have h: "os_type (demo_sys ''Windows_NT'') = ''Windows_NT''"
    by (simp add: demo_sys_def)
  have "map snd (map (\<lambda>t. (t, Skipped)) ts) = replicate (length ts) Skipped"
    for ts :: "string list"
    by (induction ts) simp_all
  with h skipped_group_runs_nothing [OF h, of demo_state] show ?thesis
    by simp
qed

text \<open>
  C6. The compile scenario passes exactly when clean and compile exit with code 0, the
  artifacts directory under the fixture instance path exists after the compile, the
  compile output matches \<^verbatim>\<open>/Compiled \d+ Solidity files? successfully/\<close>, and the final
  clean exits with code 0.
\<close>

theorem clean_compile_artifacts:
  "fst (it_compile sys s) = Inr () \<longleftrightarrow>
     (case invoke sys s (hh sys ''clean'') (world s) of (c1, w1) \<Rightarrow>
      case invoke sys s (hh sys ''compile'') w1 of (r, w2) \<Rightarrow>
      case invoke sys s (hh sys ''clean'') w2 of (c2, w3) \<Rightarrow>
        code c1 = 0 \<and> code r = 0 \<and>
        (\<exists>dir. testDirPath s = Some dir \<and>
               existsSync sys (path_join sys [dir, ''artifacts'']) w2) \<and>
        re_test re_compiled (stdout r) \<and> code c2 = 0)"
  by (simp add: it_compile_def step_simps chai_assert_def split: prod.splits option.splits)

theorem clean_compile_artifacts_witness:
  "fst (it_compile (demo_sys ''Linux'') demo_state) = Inr () \<and>
   existsSync (demo_sys ''Linux'')
     (path_join (demo_sys ''Linux'') [''/tmp/hardhat-e2e-basic-project'', ''artifacts''])
     (snd (invoke (demo_sys ''Linux'') demo_state ''node_modules/.bin/hardhat compile'' False))"
  using clean_compile_artifacts [of "demo_sys ''Linux''" demo_state]
  by (simp add: invoke_def demo_defs re_defs)

text \<open>
  C7. In each sample-project group the override
  (\<^verbatim>\<open>HARDHAT_CREATE_..._SAMPLE_PROJECT_WITH_DEFAULTS\<close>) is passed to the generation
  invocation only: the ambient environment after the group is the one before it, and
  every invocation of the group after the first ran with the ambient environment.
\<close>

theorem generation_flag_scoped:
  "env_scoped ''HARDHAT_CREATE_BASIC_SAMPLE_PROJECT_WITH_DEFAULTS'' s
     (snd (run_node (basic_sample_project sys) s)) \<and>
   env_scoped ''HARDHAT_CREATE_ADVANCED_SAMPLE_PROJECT_WITH_DEFAULTS'' s
     (snd (run_node (advanced_sample_project sys) s)) \<and>
   env_scoped ''HARDHAT_CREATE_ADVANCED_TYPESCRIPT_SAMPLE_PROJECT_WITH_DEFAULTS'' s
     (snd (run_node (advanced_ts_sample_project sys) s))"
  unfolding basic_sample_project_def advanced_sample_project_def
    advanced_ts_sample_project_def
  by (intro conjI sample_group_env)

theorem generation_flag_scoped_witness:
  "env_scoped ''HARDHAT_CREATE_BASIC_SAMPLE_PROJECT_WITH_DEFAULTS'' demo_state
     (snd (run_node (basic_sample_project (demo_sys ''Linux'')) demo_state)) \<and>
   map ev_cmd (execs (snd (run_node (basic_sample_project (demo_sys ''Linux'')) demo_state))) =
     [''node_modules/.bin/hardhat'', ''node_modules/.bin/hardhat accounts'',
      ''node_modules/.bin/hardhat compile'', ''node_modules/.bin/hardhat test'',
      ''node scripts/sample-script.js'']"
proof -
  have "map ev_cmd (execs (snd (run_node (basic_sample_project (demo_sys ''Linux''))
            demo_state))) =
     [''node_modules/.bin/hardhat'', ''node_modules/.bin/hardhat accounts'',
      ''node_modules/.bin/hardhat compile'', ''node_modules/.bin/hardhat test'',
      ''node scripts/sample-script.js'']"
    by (simp add: basic_sample_project_def basic_sample_commands_def useFixture_def
          generate_project_eq run_suggested record_exec_def demo_defs)
  with generation_flag_scoped [of demo_state "demo_sys ''Linux''"] show ?thesis
    by simp
qed

text \<open>
  C8. In the basic-project fixture and in the empty fixture alike, the first scenario of
  the group (\<^verbatim>\<open>--version\<close>) passes exactly when the tool, run in the fixture's instance
  directory, exits with code 0 and its output matches \<^verbatim>\<open>/^\d+\.\d+\.\d+\n$/\<close>; that
  pattern holds exactly of one line of three dot-separated non-empty digit runs.
\<close>

theorem version_line_in_both_fixtures:
  "(copy_fixture sys ''basic-project'' (world s) = Some (dir, w) \<longrightarrow>
      (hd (fst (run_node (basic_project sys) s)) =
         (''should print the hardhat version'', Passed) \<longleftrightarrow>
       (case spawn sys (hh sys ''--version'') (penv s) dir w of
          (r, w1) \<Rightarrow> code r = 0 \<and> re_test versionRegExp (stdout r)))) \<and>
   (copy_fixture sys ''empty'' (world s) = Some (dir, w) \<longrightarrow>
      (hd (fst (run_node (no_project sys) s)) =
         (''should print the hardhat version'', Passed) \<longleftrightarrow>
       (case spawn sys (hh sys ''--version'') (penv s) dir w of
          (r, w1) \<Rightarrow> code r = 0 \<and> re_test versionRegExp (stdout r)))) \<and>
   (re_test versionRegExp out \<longleftrightarrow>
      (\<exists>a b c. out = a @ ''.'' @ b @ ''.'' @ c @ [CHR 0x0A] \<and>
               digits a \<and> digits b \<and> digits c))"
proof (intro conjI impI)
  assume "copy_fixture sys ''basic-project'' (world s) = Some (dir, w)"
  then show "hd (fst (run_node (basic_project sys) s)) =
         (''should print the hardhat version'', Passed) \<longleftrightarrow>
       (case spawn sys (hh sys ''--version'') (penv s) dir w of
          (r, w1) \<Rightarrow> code r = 0 \<and> re_test versionRegExp (stdout r))"
    unfolding basic_project_def by (rule first_version_outcome)
next
  assume "copy_fixture sys ''empty'' (world s) = Some (dir, w)"
  then show "hd (fst (run_node (no_project sys) s)) =
         (''should print the hardhat version'', Passed) \<longleftrightarrow>
       (case spawn sys (hh sys ''--version'') (penv s) dir w of
          (r, w1) \<Rightarrow> code r = 0 \<and> re_test versionRegExp (stdout r))"
    unfolding no_project_def by (rule first_version_outcome)
next
  show "re_test versionRegExp out \<longleftrightarrow>
      (\<exists>a b c. out = a @ ''.'' @ b @ ''.'' @ c @ [CHR 0x0A] \<and>
               digits a \<and> digits b \<and> digits c)"
    by (rule re_test_version)
qed

theorem version_line_in_both_fixtures_witness:
  "copy_fixture (demo_sys ''Linux'') ''basic-project'' (world demo_state) =
     Some (''/tmp/hardhat-e2e-basic-project'', False) \<and>
   hd (fst (run_node (basic_project (demo_sys ''Linux'')) demo_state)) =
     (''should print the hardhat version'', Passed) \<and>
   copy_fixture (demo_sys ''Linux'') ''empty'' (world demo_state) =
     Some (''/tmp/hardhat-e2e-empty'', False) \<and>
   hd (fst (run_node (no_project (demo_sys ''Linux'')) demo_state)) =
     (''should print the hardhat version'', Passed)"
  using version_line_in_both_fixtures [of "demo_sys ''Linux''" demo_state
      "''/tmp/hardhat-e2e-basic-project''" False, THEN conjunct1]
    version_line_in_both_fixtures [of "demo_sys ''Linux''" demo_state "''/tmp/hardhat-e2e-empty''" False,
      THEN conjunct2, THEN conjunct1]
  by (simp add: demo_defs re_defs)

text \<open>
  C9. The tolerant mode is scoped to one invocation: from any state, the scenario that
  compiles outside a project makes exactly one process invocation, in tolerant mode, and
  leaves the strict mode in effect. So in a run of the whole suite, on any system, every
  scenario body is entered in strict mode, the run ends in strict mode, and every
  process invocation of the run was made in strict mode, except that the last one may be
  the tolerant compile of that scenario.
\<close>

theorem tolerant_mode_scoped:
  "list_all snd (starts (snd (run_e2e sys e dir w))) \<and>
   strict_but_last (hh sys ''compile'') (snd (run_e2e sys e dir w)) \<and>
   fatal (snd (it_no_project_compile sys s)) \<and>
   new_execs s (snd (it_no_project_compile sys s)) =
     [\<lparr>ev_cmd = hh sys ''compile'', ev_env = penv s, ev_cwd = cwd s, ev_fatal = False\<rparr>]"
  using but_last_after_suite [of sys e dir w]
  by (simp add: strict_but_last_def no_project_compile_state new_execs_def
      split: prod.splits)

theorem tolerant_mode_scoped_witness:
  "list_all snd (starts (snd (run_e2e (demo_sys ''Linux'') Map.empty ''/repo'' False))) \<and>
   map snd (starts (snd (run_e2e (demo_sys ''Linux'') Map.empty ''/repo'' False))) =
     replicate 33 True \<and>
   fatal (snd (it_no_project_compile (demo_sys ''Linux'') tolerant_state)) \<and>
   map ev_fatal (new_execs tolerant_state
     (snd (it_no_project_compile (demo_sys ''Linux'') tolerant_state))) = [False]"
proof -
  have "map snd (starts (snd (run_e2e (demo_sys ''Linux'') Map.empty ''/repo'' False))) =
      replicate 33 True"
    by code_simp
  with tolerant_mode_scoped [of "demo_sys ''Linux''" Map.empty "''/repo''" False
      tolerant_state]
  show ?thesis by simp
qed

text \<open>
  C10. The scenario on test-file arguments passes exactly when, after a clean that exits
  with code 0, both \<^verbatim>\<open>test test/simple.js\<close> and \<^verbatim>\<open>test ./test/simple.js\<close> exit with
  code 0.
\<close>

theorem test_file_prefix_equivalence:
  "fst (it_test_files sys s) = Inr () \<longleftrightarrow>
     (case invoke sys s (hh sys ''clean'') (world s) of (c1, w1) \<Rightarrow>
      case invoke sys s (hh sys ''test test/simple.js'') w1 of (r1, w2) \<Rightarrow>
      case invoke sys s (hh sys ''test ./test/simple.js'') w2 of (r2, w3) \<Rightarrow>
        code c1 = 0 \<and> code r1 = 0 \<and> code r2 = 0)"
  by (simp add: it_test_files_def step_simps chai_assert_def split: prod.splits)

theorem test_file_prefix_equivalence_witness:
  "fst (it_test_files (demo_sys ''Linux'') demo_state) = Inr ()"
  using test_file_prefix_equivalence [of "demo_sys ''Linux''" demo_state]
  by (simp add: invoke_def demo_defs)

end
